theory Spec2Isabelle
  imports Complex_Main "HOL-Library.Char_ord" "HOL-Library.List_Lexorder"
begin

section \<open>Tabex dosing schedule (get_required_doses, get_interval_hours)\<close>

text \<open>
  Python integers are unbounded, so a course day is an \<open>int\<close>. The interval is a Python
  float; every value the table returns (2.0, 2.5, 3.0, 5.0, 12.0) is a dyadic rational that
  a float holds exactly, so the interval is modelled as a \<open>rat\<close>.
\<close>

definition get_required_doses :: "int \<Rightarrow> int" where
  "get_required_doses day =
     (if day < 1 \<or> day > 25 then 0
      else if day \<le> 3 then 6
      else if day \<le> 12 then 5
      else if day \<le> 16 then 4
      else if day \<le> 20 then 3
      else 2)"

definition get_interval_hours :: "int \<Rightarrow> rat" where
  "get_interval_hours day =
     (if day < 1 \<or> day > 25 then 2
      else if day \<le> 3 then 2
      else if day \<le> 12 then 5 / 2
      else if day \<le> 16 then 3
      else if day \<le> 20 then 5
      else 12)"

section \<open>Python values used by the bot\<close>

datatype py_error = TypeError | ValueError

text \<open>
  A \<open>datetime\<close> is its reading in microseconds on its own clock face together with its
  \<open>tzinfo\<close>: \<open>None\<close> for a naive value (what \<open>datetime.utcnow()\<close> returns), \<open>Some off\<close> for an
  aware value with UTC offset \<open>off\<close> microseconds. Adding a \<open>timedelta\<close> moves the reading and
  keeps the \<open>tzinfo\<close>. Python orders two naive values by their readings, two aware values by
  their UTC instants, and raises \<open>TypeError\<close> when one is naive and the other aware.
  The bounded range of Python's datetime (years 1 to 9999) is not modelled.
\<close>

datatype datetime = Datetime (wall: int) (utcoffset: "int option")

definition utcnow :: "int \<Rightarrow> datetime" where
  "utcnow t = Datetime t None"

definition datetime_add :: "datetime \<Rightarrow> int \<Rightarrow> datetime" where
  "datetime_add d delta = Datetime (wall d + delta) (utcoffset d)"

definition datetime_lt :: "datetime \<Rightarrow> datetime \<Rightarrow> py_error + bool" where
  "datetime_lt a b =
     (case (utcoffset a, utcoffset b) of
        (None, None) \<Rightarrow> Inr (wall a < wall b)
      | (Some oa, Some ob) \<Rightarrow> Inr (wall a - oa < wall b - ob)
      | _ \<Rightarrow> Inl TypeError)"

definition datetime_ge :: "datetime \<Rightarrow> datetime \<Rightarrow> py_error + bool" where
  "datetime_ge a b =
     (case (utcoffset a, utcoffset b) of
        (None, None) \<Rightarrow> Inr (wall a \<ge> wall b)
      | (Some oa, Some ob) \<Rightarrow> Inr (wall a - oa \<ge> wall b - ob)
      | _ \<Rightarrow> Inl TypeError)"

text \<open>
  \<open>timedelta(hours=h)\<close> and \<open>timedelta(minutes=m)\<close> in microseconds. Python rounds a
  fractional number of microseconds; on the intervals of the schedule the product is a
  whole number (lemma \<open>timedelta_hours_exact\<close> below), so the rounding mode plays no role.
\<close>

definition timedelta_hours :: "rat \<Rightarrow> int" where
  "timedelta_hours h = round (h * 3600000000)"

definition timedelta_minutes :: "int \<Rightarrow> int" where
  "timedelta_minutes m = m * 60000000"

text \<open>
  The bot keeps timestamps as text and looks at such a text in two ways only: its truth
  value (the empty string is falsy) and the result of
  \<open>datetime.fromisoformat(text.replace("Z", "+00:00"))\<close>. A timestamp text is therefore
  represented by what that expression yields: \<open>Iso d\<close> is a text that parses to \<open>d\<close>,
  \<open>Garbled\<close> a non-empty text on which the parse raises, \<open>Empty\<close> the empty string.

  \<^item> \<open>now.isoformat() + "Z"\<close>: for a naive \<open>now\<close> the text reads back, after the replacement of
    \<open>Z\<close>, as the same clock reading at UTC offset 0, an aware datetime. For an aware \<open>now\<close> the
    text would carry two offsets and not parse.
  \<^item> \<open>earliest.isoformat().replace("+00:00", "Z")\<close>: \<open>isoformat\<close> never prints a \<open>Z\<close>, so
    replacing \<open>Z\<close> back restores the \<open>isoformat\<close> text, which parses to \<open>earliest\<close> itself.
\<close>

datatype ts_text = Iso datetime | Garbled | Empty

definition fromisoformat_Z :: "ts_text \<Rightarrow> py_error + datetime" where
  "fromisoformat_Z t = (case t of Iso d \<Rightarrow> Inr d | Garbled \<Rightarrow> Inl ValueError | Empty \<Rightarrow> Inl ValueError)"

definition isoformat_Z :: "datetime \<Rightarrow> ts_text" where
  "isoformat_Z d = (case utcoffset d of None \<Rightarrow> Iso (Datetime (wall d) (Some 0)) | Some _ \<Rightarrow> Garbled)"

definition isoformat_replace :: "datetime \<Rightarrow> ts_text" where
  "isoformat_replace d = Iso d"

text \<open>Truth value of \<open>u.get(key)\<close> for a timestamp key and for a boolean key.\<close>

definition truthy_ts :: "ts_text option \<Rightarrow> bool" where
  "truthy_ts x = (case x of None \<Rightarrow> False | Some t \<Rightarrow> t \<noteq> Empty)"

definition truthy_bool :: "bool option \<Rightarrow> bool" where
  "truthy_bool x = (case x of None \<Rightarrow> False | Some b \<Rightarrow> b)"

text \<open>\<open>u.get(key, default)\<close> on a key that may be absent.\<close>

definition dict_get :: "'a option \<Rightarrow> 'a \<Rightarrow> 'a" where
  "dict_get x d = (case x of None \<Rightarrow> d | Some v \<Rightarrow> v)"

text \<open>
  A Python string whose characters matter one by one is the list of its Unicode code
  points: 43 is \<open>+\<close>, 45 is \<open>-\<close>, 58 is \<open>:\<close>, 95 is \<open>_\<close>, 10 is the newline and 48 to 57 are
  the digits \<open>0\<close> to \<open>9\<close>. \<open>ascii\<close> turns a literal into such a list.
\<close>

type_synonym pystr = "nat list"

definition ascii :: "string \<Rightarrow> pystr" where
  "ascii s = map of_char s"

section \<open>User records\<close>

text \<open>
  A user is a JSON object (a Python dict), and each key the code reads is a field.
  \<^item> \<open>currentDay\<close>, \<open>takenToday\<close> and \<open>timezone\<close> are read with \<open>u.get(key, default)\<close>: here
    \<open>None\<close> stands for an absent key, and a present key holds a value of its type (the
    bot never writes \<open>null\<close> there; on a \<open>null\<close> the arithmetic would raise \<open>TypeError\<close>,
    which is outside the records modelled).
  \<^item> The other optional keys are read with \<open>u.get(key)\<close> and tested for truth or
    compared for equality only: here \<open>None\<close> stands for a key that is absent or holds
    \<open>null\<close>, which the code does not tell apart, and \<open>setdefault(key, None)\<close> is the
    identity.
  \<^item> \<open>pendingReminders\<close> is the legacy list, \<open>None\<close> when the key is absent.
  The result of a handler is the record as persisted by \<open>save_data\<close>: a path that returns
  before \<open>save_data\<close> leaves the persisted record as it was loaded.
\<close>

datatype pending_reminder = PendingReminder (triggerAt: "ts_text option")

record user =
  startDate :: string
  timezone :: "pystr option"
  currentDay :: "int option"
  takenToday :: "int option"
  lastDoseTimestamp :: "ts_text option"
  courseCompleted :: "bool option"
  lastMorningMessageDate :: "string option"
  last21Check :: "string option"
  nextReminderTimestamp :: "ts_text option"
  postponedReminderTimestamp :: "ts_text option"
  pendingReminders :: "pending_reminder list option"

text \<open>
  What the bot sends. The Russian wording is left out; a constructor carries the values
  the text is built from (course day, required doses, missed doses).
\<close>

datatype notification =
    CompletionNotice
  | MorningPrompt int int
  | MissedPrompt int
  | DoseReminder int
  | TakenAck
  | PostponeAck
  | MissedAck

text \<open>
  \<open>str(n)\<close> for an integer, and the record \<open>_save_new_user(uid, start_date, tz)\<close> stores.
\<close>

fun nat_digits :: "nat \<Rightarrow> pystr" where
  "nat_digits n =
     (if n < 10 then [48 + n]
      else nat_digits (n div 10) @ [48 + n mod 10])"

declare nat_digits.simps [simp del]

definition py_str :: "int \<Rightarrow> pystr" where
  "py_str i = (if i < 0 then 45 # nat_digits (nat (- i)) else nat_digits (nat i))"

definition save_new_user :: "string \<Rightarrow> int \<Rightarrow> user" where
  "save_new_user start_date tz =
     \<lparr>startDate = start_date,
      timezone = Some (py_str tz),
      currentDay = Some 1,
      takenToday = Some 0,
      lastDoseTimestamp = None,
      courseCompleted = Some False,
      lastMorningMessageDate = None,
      last21Check = None,
      nextReminderTimestamp = None,
      postponedReminderTimestamp = None,
      pendingReminders = None\<rparr>"

section \<open>Event processor\<close>

text \<open>\<open>_apply_taken(u, now)\<close>: returns the mutated record and the completion message, if any.\<close>

definition apply_taken :: "user \<Rightarrow> datetime \<Rightarrow> user \<times> notification option" where
  "apply_taken u now =
     (let u1 = u\<lparr>takenToday := Some (dict_get (takenToday u) 0 + 1),
                 lastDoseTimestamp := Some (isoformat_Z now),
                 nextReminderTimestamp := None,
                 postponedReminderTimestamp := None\<rparr>;
          day = dict_get (currentDay u1) 1;
          required = get_required_doses day;
          u2 = (if dict_get (takenToday u1) 0 \<ge> required
                then u1\<lparr>currentDay := Some (day + 1), takenToday := Some 0,
                        lastMorningMessageDate := None\<rparr>
                else u1);
          next_day = dict_get (currentDay u2) 1
      in if next_day > 25 then (u2\<lparr>courseCompleted := Some True\<rparr>, Some CompletionNotice)
         else if next_day \<le> 25
         then (u2\<lparr>nextReminderTimestamp :=
                     Some (isoformat_Z (datetime_add now (timedelta_hours (get_interval_hours next_day))))\<rparr>,
               None)
         else (u2, None))"

text \<open>Successive dose events: \<open>_apply_taken\<close> applied once for each instant of the list.\<close>

primrec take_doses :: "user \<Rightarrow> datetime list \<Rightarrow> user" where
  "take_doses u [] = u"
| "take_doses u (now # nows) = take_doses (fst (apply_taken u now)) nows"

text \<open>
  \<open>_migrate_user_reminders(u)\<close>. The loop over the legacy list keeps the earliest trigger seen
  so far; an entry without a truthy \<open>triggerAt\<close> is skipped, and so is an entry on which the
  parse or the comparison \<open>dt < earliest\<close> raises (\<open>except Exception: continue\<close>).
\<close>

fun earliest_trigger :: "pending_reminder list \<Rightarrow> datetime option \<Rightarrow> datetime option" where
  "earliest_trigger [] earliest = earliest"
| "earliest_trigger (pr # prs) earliest =
     (case triggerAt pr of
        None \<Rightarrow> earliest_trigger prs earliest
      | Some t \<Rightarrow>
          if t = Empty then earliest_trigger prs earliest
          else (case fromisoformat_Z t of
                  Inl e \<Rightarrow> earliest_trigger prs earliest
                | Inr dt \<Rightarrow>
                    (case earliest of
                       None \<Rightarrow> earliest_trigger prs (Some dt)
                     | Some e \<Rightarrow>
                         (case datetime_lt dt e of
                            Inl err \<Rightarrow> earliest_trigger prs earliest
                          | Inr b \<Rightarrow> earliest_trigger prs (if b then Some dt else earliest)))))"

definition migrate_user_reminders :: "user \<Rightarrow> user \<times> bool" where
  "migrate_user_reminders u =
     (if pendingReminders u = None \<or> pendingReminders u = Some []
      then (if pendingReminders u \<noteq> None then (u\<lparr>pendingReminders := None\<rparr>, True)
            else (u, False))
      else if truthy_ts (nextReminderTimestamp u) then (u\<lparr>pendingReminders := None\<rparr>, True)
      else (let pending = dict_get (pendingReminders u) [];
                earliest = earliest_trigger pending None;
                u1 = (case earliest of
                        None \<Rightarrow> u
                      | Some e \<Rightarrow> u\<lparr>nextReminderTimestamp := Some (isoformat_replace e)\<rparr>)
            in (u1\<lparr>postponedReminderTimestamp := None, pendingReminders := None\<rparr>, True)))"

text \<open>
  The callback handlers, from the point where the user's record has been looked up
  (an unknown user returns at once). \<open>t\<close> is the reading of \<open>datetime.utcnow()\<close>. The
  list holds the messages the handler sends or edits after \<open>save_data\<close>.
\<close>

definition cb_taken :: "user \<Rightarrow> int \<Rightarrow> user \<times> notification list" where
  "cb_taken u t =
     (let u1 = fst (migrate_user_reminders u)
      in if truthy_bool (courseCompleted u1) then (u, [])
         else (let now = utcnow t;
                   r = apply_taken u1 now
               in (fst r, TakenAck # (case snd r of None \<Rightarrow> [] | Some c \<Rightarrow> [c]))))"

definition cb_postpone :: "user \<Rightarrow> int \<Rightarrow> user \<times> notification list" where
  "cb_postpone u t =
     (if truthy_bool (courseCompleted u) then (u, [])
      else (let trigger_at = isoformat_Z (datetime_add (utcnow t) (timedelta_minutes 15))
            in (u\<lparr>postponedReminderTimestamp := Some trigger_at\<rparr>, [PostponeAck])))"

text \<open>
  \<open>cb_missed_yes\<close> in two parts: \<open>missed_top_up\<close> is the record after
  \<open>u["takenToday"] = u.get("takenToday", 0) + missed\<close>, the rest is the day advance.
\<close>

definition missed_top_up :: "user \<Rightarrow> user" where
  "missed_top_up u =
     (let u0 = fst (migrate_user_reminders u);
          u1 = u0\<lparr>nextReminderTimestamp := None, postponedReminderTimestamp := None\<rparr>;
          day = dict_get (currentDay u1) 1;
          required = get_required_doses day;
          missed = required - dict_get (takenToday u1) 0
      in u1\<lparr>takenToday := Some (dict_get (takenToday u1) 0 + missed)\<rparr>)"

definition cb_missed_yes :: "user \<Rightarrow> user \<times> notification list" where
  "cb_missed_yes u =
     (let u2 = missed_top_up u;
          day = dict_get (currentDay u2) 1;
          required = get_required_doses day;
          u3 = (if dict_get (takenToday u2) 0 \<ge> required
                then u2\<lparr>currentDay := Some (day + 1), takenToday := Some 0,
                        lastMorningMessageDate := None\<rparr>
                else u2)
      in (u3, [MissedAck]))"

section \<open>Text helpers: strip, int(), the time-zone pattern\<close>

text \<open>
  \<open>is_space\<close> holds of the code points that \<open>str.isspace()\<close> accepts; these are
  what \<open>str.strip()\<close> removes: 9 to 13, 28 to 32, U+0085, U+00A0, U+1680, U+2000 to U+200A,
  U+2028, U+2029, U+202F, U+205F and U+3000.
\<close>

definition is_space :: "nat \<Rightarrow> bool" where
  "is_space c =
     ((9 \<le> c \<and> c \<le> 13) \<or> (28 \<le> c \<and> c \<le> 32) \<or> c = 133 \<or> c = 160 \<or> c = 5760
      \<or> (8192 \<le> c \<and> c \<le> 8202) \<or> c = 8232 \<or> c = 8233 \<or> c = 8239 \<or> c = 8287
      \<or> c = 12288)"

definition strip :: "pystr \<Rightarrow> pystr" where
  "strip s = rev (dropWhile is_space (rev (dropWhile is_space s)))"

text \<open>
  The decimal digits of the Unicode database (category Nd) are a table of the Python
  runtime, not of the program. The table is a parameter \<open>dec\<close>: \<open>dec c = Some v\<close> when the
  code point \<open>c\<close> is a decimal digit of value \<open>v\<close>. Both \<open>\d\<close> of the pattern and \<open>int()\<close>
  read this table. \<open>unicode_decimal\<close> says what is used of it: below 128 the digits are
  exactly \<open>0\<close> to \<open>9\<close> with their values, no whitespace is a digit, and a value is at most 9.
\<close>

definition unicode_decimal :: "(nat \<Rightarrow> nat option) \<Rightarrow> bool" where
  "unicode_decimal dec =
     ((\<forall>c. c < 128 \<longrightarrow> dec c = (if 48 \<le> c \<and> c \<le> 57 then Some (c - 48) else None))
      \<and> (\<forall>c. is_space c \<longrightarrow> dec c = None)
      \<and> (\<forall>c v. dec c = Some v \<longrightarrow> v \<le> 9))"

definition is_decimal :: "(nat \<Rightarrow> nat option) \<Rightarrow> nat \<Rightarrow> bool" where
  "is_decimal dec c = (dec c \<noteq> None)"

definition digit_val :: "(nat \<Rightarrow> nat option) \<Rightarrow> nat \<Rightarrow> int" where
  "digit_val dec c = (case dec c of None \<Rightarrow> 0 | Some v \<Rightarrow> int v)"

text \<open>
  \<open>int(text)\<close>. The text is first brought to ASCII: a code point below 127 stays, any
  other whitespace becomes a space, any other decimal digit becomes the ASCII digit of its
  value, and anything else becomes \<open>?\<close> (63). Then the whitespace of C (9 to 13 and 32) is
  trimmed at both ends, and what remains must be an optional sign followed by ASCII
  digits, where single underscores may stand between digits. Anything else raises
  \<open>ValueError\<close>.
\<close>

definition to_ascii :: "(nat \<Rightarrow> nat option) \<Rightarrow> nat \<Rightarrow> nat" where
  "to_ascii dec c =
     (if c < 127 then c
      else if is_space c then 32
      else (case dec c of None \<Rightarrow> 63 | Some v \<Rightarrow> 48 + v))"

definition is_c_space :: "nat \<Rightarrow> bool" where
  "is_c_space c = ((9 \<le> c \<and> c \<le> 13) \<or> c = 32)"

definition is_ascii_digit :: "nat \<Rightarrow> bool" where
  "is_ascii_digit c = (48 \<le> c \<and> c \<le> 57)"

fun int_digits :: "pystr \<Rightarrow> int \<Rightarrow> int option" where
  "int_digits [] acc = Some acc"
| "int_digits (c # cs) acc =
     (if is_ascii_digit c then int_digits cs (acc * 10 + (int c - 48))
      else if c = 95 then
        (case cs of [] \<Rightarrow> None | d # ds \<Rightarrow> if is_ascii_digit d then int_digits cs acc else None)
      else None)"

definition py_int :: "(nat \<Rightarrow> nat option) \<Rightarrow> pystr \<Rightarrow> py_error + int" where
  "py_int dec s =
     (let a = map (to_ascii dec) s;
          s1 = rev (dropWhile is_c_space (rev (dropWhile is_c_space a)));
          neg = (s1 \<noteq> [] \<and> hd s1 = 45);
          body = (if s1 \<noteq> [] \<and> (hd s1 = 43 \<or> hd s1 = 45) then tl s1 else s1)
      in if body = [] \<or> \<not> is_ascii_digit (hd body) then Inl ValueError
         else (case int_digits body 0 of
                 None \<Rightarrow> Inl ValueError
               | Some n \<Rightarrow> Inr (if neg then - n else n)))"

text \<open>
  \<open>re.match(r"^([+-]?\d{1,2})(?::(\d{2}))?$", s)\<close>, giving groups 1 and 2 of a match.
  \<open>tz_tail\<close> is the part after the hour digits: nothing or a colon and two digits, up to the
  end of the text, where \<open>$\<close> also matches before one final newline. The hour digits are
  greedy: two digits are tried before one.
\<close>

definition tz_tail :: "(nat \<Rightarrow> nat option) \<Rightarrow> pystr \<Rightarrow> pystr option option" where
  "tz_tail dec r =
     (let r1 = (if r \<noteq> [] \<and> last r = 10 then butlast r else r)
      in if r1 = [] then Some None
         else if length r1 = 3 \<and> hd r1 = 58 \<and> list_all (is_decimal dec) (tl r1)
         then Some (Some (tl r1))
         else None)"

definition tz_hour :: "(nat \<Rightarrow> nat option) \<Rightarrow> nat \<Rightarrow> pystr \<Rightarrow> (pystr \<times> pystr option) option" where
  "tz_hour dec n r =
     (if n \<le> length r \<and> list_all (is_decimal dec) (take n r)
      then (case tz_tail dec (drop n r) of None \<Rightarrow> None | Some g2 \<Rightarrow> Some (take n r, g2))
      else None)"

definition re_match_tz :: "(nat \<Rightarrow> nat option) \<Rightarrow> pystr \<Rightarrow> (pystr \<times> pystr option) option" where
  "re_match_tz dec s =
     (let signed = (s \<noteq> [] \<and> (hd s = 43 \<or> hd s = 45));
          sign = (if signed then [hd s] else []);
          r = (if signed then tl s else s)
      in case tz_hour dec 2 r of
           Some (ds, g2) \<Rightarrow> Some (sign @ ds, g2)
         | None \<Rightarrow>
             (case tz_hour dec 1 r of
                Some (ds, g2) \<Rightarrow> Some (sign @ ds, g2)
              | None \<Rightarrow> None))"

definition parse_timezone :: "(nat \<Rightarrow> nat option) \<Rightarrow> pystr \<Rightarrow> py_error + int option" where
  "parse_timezone dec s =
     (let s1 = strip s
      in case re_match_tz dec s1 of
           None \<Rightarrow> Inr None
         | Some (g1, g2) \<Rightarrow>
             (case py_int dec g1 of
                Inl e \<Rightarrow> Inl e
              | Inr h \<Rightarrow>
                  if g2 \<noteq> None \<and> g2 \<noteq> Some [] then Inr None
                  else if h < - 12 \<or> h > 14 then Inr None
                  else Inr (Some h)))"

section \<open>Reminder scheduler\<close>

text \<open>
  What one tick reads from outside: the clock (\<open>now_utc\<close> is the reading of
  \<open>datetime.utcnow()\<close>; \<open>local_date\<close> and \<open>local_time\<close> are \<open>user_local_date_str\<close> and
  \<open>user_local_time_str\<close>, which read the clock again and format it as \<open>YYYY-MM-DD\<close> and
  \<open>HH:MM\<close> for a UTC offset in hours) and whether \<open>bot.send_message\<close> delivers a
  message or raises, and the table of decimal digits of the Python runtime, which
  \<open>int()\<close> reads. The \<open>notification list\<close> of a step holds the sends it attempts.
  Strings are compared as Python does, lexicographically.
\<close>

record env =
  now_utc :: int
  local_date :: "int \<Rightarrow> string"
  local_time :: "int \<Rightarrow> string"
  delivers :: "notification \<Rightarrow> bool"
  decimal_table :: "nat \<Rightarrow> nat option"

definition tick_morning :: "string \<Rightarrow> string \<Rightarrow> int \<Rightarrow> int \<Rightarrow> user \<Rightarrow> user \<times> notification list" where
  "tick_morning today_user time_user day required u =
     (if time_user \<ge> ''07:59'' \<and> time_user \<le> ''08:01''
      then (if lastMorningMessageDate u \<noteq> Some today_user
            then (u\<lparr>lastMorningMessageDate := Some today_user\<rparr>, [MorningPrompt day required])
            else (u, []))
      else (u, []))"

definition tick_missed :: "string \<Rightarrow> string \<Rightarrow> int \<Rightarrow> user \<Rightarrow> user \<times> notification list" where
  "tick_missed today_user time_user required u =
     (if time_user \<ge> ''20:59'' \<and> time_user \<le> ''21:02''
      then (let missed = required - dict_get (takenToday u) 0
            in if missed > 0 \<and> last21Check u \<noteq> Some today_user
               then (u\<lparr>last21Check := Some today_user\<rparr>, [MissedPrompt missed])
               else (u, []))
      else (u, []))"

text \<open>
  One timer of step 3, for a truthy timestamp text: whether the timer is cleared, and the
  sends attempted. The \<open>try\<close> body parses, compares, sends and clears; the \<open>except Exception\<close>
  branch, reached when the parse, the comparison or the send raises, clears as well.
\<close>

definition check_timer :: "(notification \<Rightarrow> bool) \<Rightarrow> datetime \<Rightarrow> int \<Rightarrow> ts_text \<Rightarrow> bool \<times> notification list" where
  "check_timer dlv now day ts =
     (case fromisoformat_Z ts of
        Inl e \<Rightarrow> (True, [])
      | Inr dt \<Rightarrow>
          (case datetime_ge now dt of
             Inl e \<Rightarrow> (True, [])
           | Inr due \<Rightarrow>
               if due
               then (if dlv (DoseReminder day) then (True, [DoseReminder day])
                     else (True, [DoseReminder day]))
               else (False, [])))"

definition tick_reminders :: "(notification \<Rightarrow> bool) \<Rightarrow> datetime \<Rightarrow> int \<Rightarrow> user \<Rightarrow> user \<times> notification list" where
  "tick_reminders dlv now day u =
     (let m = migrate_user_reminders u;
          u0 = fst m;
          next_ts = nextReminderTimestamp u0;
          post_ts = postponedReminderTimestamp u0;
          n = (if truthy_ts next_ts then check_timer dlv now day (dict_get next_ts Empty) else (False, []));
          u1 = (if fst n then u0\<lparr>nextReminderTimestamp := None\<rparr> else u0);
          p = (if truthy_ts post_ts then check_timer dlv now day (dict_get post_ts Empty) else (False, []));
          u2 = (if fst p then u1\<lparr>postponedReminderTimestamp := None\<rparr> else u1);
          need_save = (snd m \<or> fst n \<or> fst p)
      in (if need_save then u2 else u, snd n @ snd p))"

text \<open>The body of the loop of \<open>tick\<close> for one user, and \<open>tick\<close> over the stored users.\<close>

definition tick_user :: "env \<Rightarrow> user \<Rightarrow> user \<times> notification list" where
  "tick_user e u =
     (if truthy_bool (courseCompleted u) then (u, [])
      else (case (case timezone u of None \<Rightarrow> Inr 0 | Some z \<Rightarrow> py_int (decimal_table e) z) of
              Inl err \<Rightarrow> (u, [])
            | Inr tz \<Rightarrow>
                (let today_user = local_date e tz;
                     time_user = local_time e tz;
                     day = dict_get (currentDay u) 1
                 in if day > 25 then (u\<lparr>courseCompleted := Some True\<rparr>, [CompletionNotice])
                    else (let required = get_required_doses day;
                              a = tick_morning today_user time_user day required u;
                              b = tick_missed today_user time_user required (fst a);
                              c = tick_reminders (delivers e) (utcnow (now_utc e)) day (fst b)
                          in (fst c, snd a @ snd b @ snd c)))))"

fun tick :: "env \<Rightarrow> (string \<times> user) list \<Rightarrow> (string \<times> user) list \<times> (string \<times> notification) list" where
  "tick e [] = ([], [])"
| "tick e ((uid, u) # users) =
     (let r = tick_user e u; rest = tick e users
      in ((uid, fst r) # fst rest, map (Pair uid) (snd r) @ snd rest))"

section \<open>Notions used to state the properties\<close>

text \<open>
  The trigger times of a legacy list that can be read: the entries whose \<open>triggerAt\<close> is
  present and parses, in list order.
\<close>

fun parseable_triggers :: "pending_reminder list \<Rightarrow> datetime list" where
  "parseable_triggers [] = []"
| "parseable_triggers (pr # prs) =
     (case triggerAt pr of
        None \<Rightarrow> parseable_triggers prs
      | Some t \<Rightarrow>
          (case fromisoformat_Z t of
             Inl e \<Rightarrow> parseable_triggers prs
           | Inr d \<Rightarrow> d # parseable_triggers prs))"

text \<open>The instant by which Python orders datetimes of the same kind.\<close>

definition utc_key :: "datetime \<Rightarrow> int" where
  "utc_key d = (case utcoffset d of None \<Rightarrow> wall d | Some off \<Rightarrow> wall d - off)"

text \<open>
  A whole-hour offset as a text: an optional sign followed by one or two decimal digits,
  and the number it denotes.
\<close>

definition unsigned_part :: "pystr \<Rightarrow> pystr" where
  "unsigned_part t = (if t \<noteq> [] \<and> (hd t = 43 \<or> hd t = 45) then tl t else t)"

definition whole_hour_text :: "(nat \<Rightarrow> nat option) \<Rightarrow> pystr \<Rightarrow> bool" where
  "whole_hour_text dec t =
     ((length (unsigned_part t) = 1 \<or> length (unsigned_part t) = 2)
      \<and> list_all (is_decimal dec) (unsigned_part t))"

definition whole_hour_value :: "(nat \<Rightarrow> nat option) \<Rightarrow> pystr \<Rightarrow> int" where
  "whole_hour_value dec t =
     (let n = foldl (\<lambda>a c. a * 10 + digit_val dec c) 0 (unsigned_part t)
      in if t \<noteq> [] \<and> hd t = 45 then - n else n)"

text \<open>
  A part of the table of decimal digits: the ASCII digits, the Arabic-Indic digits
  (U+0660 to U+0669) and the fullwidth digits (U+FF10 to U+FF19).
\<close>

definition sample_decimal :: "nat \<Rightarrow> nat option" where
  "sample_decimal c =
     (if 48 \<le> c \<and> c \<le> 57 then Some (c - 48)
      else if 1632 \<le> c \<and> c \<le> 1641 then Some (c - 1632)
      else if 65296 \<le> c \<and> c \<le> 65305 then Some (c - 65296)
      else None)"

text \<open>A clock that shows the same local date or time for every offset.\<close>

definition fixed_clock :: "string \<Rightarrow> int \<Rightarrow> string" where
  "fixed_clock s tz = s"

text \<open>A gateway on which every send succeeds, and the test for a morning prompt.\<close>

definition always_delivers :: "notification \<Rightarrow> bool" where
  "always_delivers n = True"


text \<open>
  Two datetimes are of the same kind when both are naive or both are aware; only such
  datetimes can be ordered. \<open>first_kind_triggers\<close> are the readable triggers of the kind of
  the first readable one, and \<open>is_earliest cs d\<close> says that no entry of \<open>cs\<close> lies before \<open>d\<close>.
  \<open>first_min cs e\<close> places \<open>e\<close> in \<open>cs\<close>: everything before it is later, nothing after it is
  earlier.
\<close>

definition same_kind :: "datetime \<Rightarrow> datetime \<Rightarrow> bool" where
  "same_kind a b = ((utcoffset a = None) = (utcoffset b = None))"

definition is_earliest :: "datetime list \<Rightarrow> datetime \<Rightarrow> bool" where
  "is_earliest cs d = list_all (\<lambda>x. utc_key d \<le> utc_key x) cs"

definition first_min :: "datetime list \<Rightarrow> datetime \<Rightarrow> bool" where
  "first_min cs e =
     (\<exists>xs ys. cs = xs @ e # ys \<and> (\<forall>d \<in> set xs. utc_key e < utc_key d)
        \<and> (\<forall>d \<in> set ys. utc_key e \<le> utc_key d))"

definition first_kind_triggers :: "pending_reminder list \<Rightarrow> datetime list" where
  "first_kind_triggers pending =
     (case parseable_triggers pending of
        [] \<Rightarrow> []
      | p # ps \<Rightarrow> filter (same_kind p) (p # ps))"

text \<open>
  A record in the legacy shape: two aware triggers, a naive one between them, an entry
  without trigger and an unreadable one.
\<close>

definition mixed_legacy_user :: user where
  "mixed_legacy_user = save_new_user ''2025-03-01'' 5
     \<lparr>pendingReminders := Some
        [PendingReminder (Some (Iso (Datetime 300 (Some 0)))),
         PendingReminder (Some (Iso (Datetime 50 None))),
         PendingReminder None,
         PendingReminder (Some Garbled),
         PendingReminder (Some (Iso (Datetime 100 (Some 0))))]\<rparr>"

section \<open>Auxiliary facts\<close>

lemma timedelta_hours_exact:
  "of_int (timedelta_hours (get_interval_hours day)) = get_interval_hours day * 3600000000"
  by (simp add: timedelta_hours_def get_interval_hours_def)

lemma timedelta_hours_values:
  "timedelta_hours 2 = 7200000000" "timedelta_hours (5 / 2) = 9000000000"
  by (simp_all add: timedelta_hours_def)

lemma schedule_day_one_two: "get_required_doses 1 = 6" "get_interval_hours 2 = 2"
  by (simp_all add: get_required_doses_def get_interval_hours_def)

lemma apply_taken_below:
  assumes "dict_get (takenToday u) 0 + 1 < get_required_doses (dict_get (currentDay u) 1)"
  shows "dict_get (currentDay (fst (apply_taken u now))) 1 = dict_get (currentDay u) 1"
    and "dict_get (takenToday (fst (apply_taken u now))) 0 = dict_get (takenToday u) 0 + 1"
  using assms
  by (auto simp add: apply_taken_def Let_def dict_get_def get_required_doses_def split: if_splits)

lemma apply_taken_last:
  assumes "dict_get (takenToday u) 0 + 1 \<ge> get_required_doses (dict_get (currentDay u) 1)"
    and "dict_get (currentDay u) 1 < 25"
  shows "currentDay (fst (apply_taken u now)) = Some (dict_get (currentDay u) 1 + 1)"
    and "takenToday (fst (apply_taken u now)) = Some 0"
    and "nextReminderTimestamp (fst (apply_taken u now)) =
           Some (isoformat_Z (datetime_add now
             (timedelta_hours (get_interval_hours (dict_get (currentDay u) 1 + 1)))))"
    and "snd (apply_taken u now) = None"
  using assms
  by (simp_all add: apply_taken_def Let_def dict_get_def)

lemma migrate_fields:
  "currentDay (fst (migrate_user_reminders u)) = currentDay u"
  "takenToday (fst (migrate_user_reminders u)) = takenToday u"
  "courseCompleted (fst (migrate_user_reminders u)) = courseCompleted u"
  "lastMorningMessageDate (fst (migrate_user_reminders u)) = lastMorningMessageDate u"
  "pendingReminders (fst (migrate_user_reminders u)) = None"
  by (simp_all add: migrate_user_reminders_def Let_def split: option.split)

lemma completed_noop:
  assumes "truthy_bool (courseCompleted u)"
  shows "cb_taken u t = (u, [])" and "cb_postpone u t = (u, [])" and "tick_user e u = (u, [])"
  using assms by (simp_all add: cb_taken_def cb_postpone_def tick_user_def migrate_fields)

lemma check_timer_aware:
  "check_timer dlv (utcnow t) day (Iso (Datetime T (Some off))) = (True, [])"
  by (simp add: check_timer_def fromisoformat_Z_def datetime_ge_def utcnow_def)

lemma check_timer_written:
  "check_timer dlv (utcnow t) day (isoformat_Z (datetime_add (utcnow t') delta)) = (True, [])"
  by (simp add: isoformat_Z_def datetime_add_def utcnow_def check_timer_aware [unfolded utcnow_def])

lemma check_timer_naive:
  "check_timer dlv (utcnow t) day (Iso (Datetime T None))
     = (if t \<ge> T then (True, [DoseReminder day]) else (False, []))"
  by (simp add: check_timer_def fromisoformat_Z_def datetime_ge_def utcnow_def)










lemma tick_morning_twice:
  assumes "''07:59'' \<le> time_user \<and> time_user \<le> ''08:01''"
  shows "(lastMorningMessageDate u \<noteq> Some today \<longrightarrow>
            tick_morning today time_user day required u
              = (u\<lparr>lastMorningMessageDate := Some today\<rparr>, [MorningPrompt day required]))
       \<and> (lastMorningMessageDate u = Some today \<longrightarrow>
            tick_morning today time_user day required u = (u, []))
       \<and> tick_morning today time2 day2 required2 (fst (tick_morning today time_user day required u))
            = (fst (tick_morning today time_user day required u), [])
       \<and> (lastMorningMessageDate u \<noteq> Some today \<longrightarrow>
            snd (tick_morning today time_user day required u)
              @ snd (tick_morning today time2 day2 required2
                      (fst (tick_morning today time_user day required u)))
              = [MorningPrompt day required])"
  using assms by (simp add: tick_morning_def)

lemma datetime_lt_True_iff:
  "datetime_lt a b = Inr True \<longleftrightarrow>
     (utcoffset a = None) = (utcoffset b = None) \<and> utc_key a < utc_key b"
  by (auto simp add: datetime_lt_def utc_key_def split: option.splits)

lemma datetime_lt_False_iff:
  "datetime_lt a b = Inr False \<longleftrightarrow>
     (utcoffset a = None) = (utcoffset b = None) \<and> utc_key b \<le> utc_key a"
  by (auto simp add: datetime_lt_def utc_key_def split: option.splits)

lemma datetime_lt_Inl_iff:
  "datetime_lt a b = Inl e \<longleftrightarrow> e = TypeError \<and> (utcoffset a = None) \<noteq> (utcoffset b = None)"
  by (auto simp add: datetime_lt_def split: option.splits)

lemma datetime_ge_True_iff:
  "datetime_ge a b = Inr True \<longleftrightarrow>
     (utcoffset a = None) = (utcoffset b = None) \<and> utc_key b \<le> utc_key a"
  by (auto simp add: datetime_ge_def utc_key_def split: option.splits)

lemma earliest_trigger_from_some:
  "\<exists>e. earliest_trigger prs (Some a) = Some e
       \<and> (utcoffset e = None) = (utcoffset a = None)
       \<and> utc_key e \<le> utc_key a
       \<and> (e = a \<or> e \<in> set (parseable_triggers prs))
       \<and> (\<forall>d \<in> set (parseable_triggers prs). datetime_lt d e \<noteq> Inr True)"
proof (induction prs arbitrary: a)
  case Nil
  show ?case by simp
next
  case (Cons pr prs)
  show ?case
  proof (cases "triggerAt pr")
    case None
    with Cons.IH [of a] show ?thesis by simp
  next
    case (Some t)
    show ?thesis
    proof (cases "fromisoformat_Z t")
      case (Inl err)
      then have "earliest_trigger (pr # prs) (Some a) = earliest_trigger prs (Some a)"
        using Some by simp
      with Cons.IH [of a] Some Inl show ?thesis by simp
    next
      case (Inr dt)
      then have ne: "t \<noteq> Empty" by (auto simp add: fromisoformat_Z_def)
      have ps: "parseable_triggers (pr # prs) = dt # parseable_triggers prs"
        using Some Inr by simp
      show ?thesis
      proof (cases "datetime_lt dt a")
        case (Inl err)
        then have step: "earliest_trigger (pr # prs) (Some a) = earliest_trigger prs (Some a)"
          using Some Inr ne by simp
        from Inl have diff: "(utcoffset dt = None) \<noteq> (utcoffset a = None)"
          by (simp add: datetime_lt_Inl_iff)
        from Cons.IH [of a] obtain e where e: "earliest_trigger prs (Some a) = Some e"
          "(utcoffset e = None) = (utcoffset a = None)" "utc_key e \<le> utc_key a"
          "e = a \<or> e \<in> set (parseable_triggers prs)"
          "\<forall>d \<in> set (parseable_triggers prs). datetime_lt d e \<noteq> Inr True" by auto
        from diff e(2) have "datetime_lt dt e \<noteq> Inr True"
          by (simp add: datetime_lt_True_iff)
        with e step ps show ?thesis by auto
      next
        case (Inr b)
        show ?thesis
        proof (cases b)
          case True
          with Inr have lt: "datetime_lt dt a = Inr True" by simp
          then have step: "earliest_trigger (pr # prs) (Some a) = earliest_trigger prs (Some dt)"
            using Some \<open>fromisoformat_Z t = Inr dt\<close> ne by simp
          from Cons.IH [of dt] obtain e where e: "earliest_trigger prs (Some dt) = Some e"
            "(utcoffset e = None) = (utcoffset dt = None)" "utc_key e \<le> utc_key dt"
            "e = dt \<or> e \<in> set (parseable_triggers prs)"
            "\<forall>d \<in> set (parseable_triggers prs). datetime_lt d e \<noteq> Inr True" by auto
          from lt have k: "(utcoffset dt = None) = (utcoffset a = None)" "utc_key dt < utc_key a"
            by (simp_all add: datetime_lt_True_iff)
          from e(3) have "datetime_lt dt e \<noteq> Inr True" by (simp add: datetime_lt_True_iff)
          with e k step ps show ?thesis by auto
        next
          case False
          with Inr have ge: "datetime_lt dt a = Inr False" by simp
          then have step: "earliest_trigger (pr # prs) (Some a) = earliest_trigger prs (Some a)"
            using Some \<open>fromisoformat_Z t = Inr dt\<close> ne by simp
          from Cons.IH [of a] obtain e where e: "earliest_trigger prs (Some a) = Some e"
            "(utcoffset e = None) = (utcoffset a = None)" "utc_key e \<le> utc_key a"
            "e = a \<or> e \<in> set (parseable_triggers prs)"
            "\<forall>d \<in> set (parseable_triggers prs). datetime_lt d e \<noteq> Inr True" by auto
          from ge have "utc_key a \<le> utc_key dt" by (simp add: datetime_lt_False_iff)
          with e(3) have "datetime_lt dt e \<noteq> Inr True" by (simp add: datetime_lt_True_iff)
          with e step ps show ?thesis by auto
        qed
      qed
    qed
  qed
qed

lemma earliest_trigger_from_none:
  "(parseable_triggers prs = [] \<longrightarrow> earliest_trigger prs None = None)
   \<and> (parseable_triggers prs \<noteq> [] \<longrightarrow>
        (\<exists>e \<in> set (parseable_triggers prs). earliest_trigger prs None = Some e
           \<and> (\<forall>d \<in> set (parseable_triggers prs). datetime_lt d e \<noteq> Inr True)))"
proof (induction prs)
  case Nil
  show ?case by simp
next
  case (Cons pr prs)
  show ?case
  proof (cases "triggerAt pr")
    case None
    with Cons.IH show ?thesis by simp
  next
    case (Some t)
    show ?thesis
    proof (cases "fromisoformat_Z t")
      case (Inl err)
      then have "earliest_trigger (pr # prs) None = earliest_trigger prs None"
        using Some by simp
      with Cons.IH Some Inl show ?thesis by simp
    next
      case (Inr dt)
      then have ne: "t \<noteq> Empty" by (auto simp add: fromisoformat_Z_def)
      have ps: "parseable_triggers (pr # prs) = dt # parseable_triggers prs"
        using Some Inr by simp
      have step: "earliest_trigger (pr # prs) None = earliest_trigger prs (Some dt)"
        using Some Inr ne by simp
      from earliest_trigger_from_some [of prs dt] obtain e where
        e: "earliest_trigger prs (Some dt) = Some e" "utc_key e \<le> utc_key dt"
        "e = dt \<or> e \<in> set (parseable_triggers prs)"
        "\<forall>d \<in> set (parseable_triggers prs). datetime_lt d e \<noteq> Inr True" by auto
      from e(2) have "datetime_lt dt e \<noteq> Inr True" by (simp add: datetime_lt_True_iff)
      with e step ps show ?thesis by auto
    qed
  qed
qed

lemma first_min_head: "\<forall>d \<in> set cs. utc_key e \<le> utc_key d \<Longrightarrow> first_min (e # cs) e"
  unfolding first_min_def by (rule exI [of _ "[]"], rule exI [of _ cs]) simp

lemma first_min_cons:
  assumes "first_min cs e" and "utc_key e < utc_key d"
  shows "first_min (d # cs) e"
proof -
  from assms(1) obtain xs ys where c: "cs = xs @ e # ys" "\<forall>x \<in> set xs. utc_key e < utc_key x"
    "\<forall>x \<in> set ys. utc_key e \<le> utc_key x" unfolding first_min_def by blast
  show ?thesis unfolding first_min_def
    by (rule exI [of _ "d # xs"], rule exI [of _ ys]) (use c assms(2) in simp)
qed

lemma find_skip: "\<forall>x \<in> set xs. \<not> P x \<Longrightarrow> P e \<Longrightarrow> find P (xs @ e # ys) = Some e"
  by (induction xs) simp_all

lemma first_min_find:
  assumes "first_min cs e"
  shows "find (is_earliest cs) cs = Some e"
proof -
  from assms obtain xs ys where c: "cs = xs @ e # ys" "\<forall>x \<in> set xs. utc_key e < utc_key x"
    "\<forall>x \<in> set ys. utc_key e \<le> utc_key x" unfolding first_min_def by blast
  have e: "is_earliest cs e"
    using c by (auto simp add: is_earliest_def list_all_iff less_imp_le)
  have "\<forall>x \<in> set xs. \<not> is_earliest cs x"
  proof
    fix x assume "x \<in> set xs"
    with c(2) have "utc_key e < utc_key x" by simp
    moreover have "e \<in> set cs" using c(1) by simp
    ultimately have "\<exists>y \<in> set cs. \<not> utc_key x \<le> utc_key y" by (intro bexI [of _ e]) simp_all
    then show "\<not> is_earliest cs x" by (simp add: is_earliest_def list_all_iff)
  qed
  from find_skip [OF this e, of ys] c(1) show ?thesis by simp
qed

lemma same_kind_filter:
  "same_kind b a \<Longrightarrow> filter (same_kind a) xs = filter (same_kind b) xs"
  by (rule filter_cong) (auto simp add: same_kind_def)

lemma datetime_lt_kind:
  "datetime_lt a b = Inr True \<longleftrightarrow> same_kind a b \<and> utc_key a < utc_key b"
  "datetime_lt a b = Inr False \<longleftrightarrow> same_kind a b \<and> utc_key b \<le> utc_key a"
  "datetime_lt a b = Inl err \<longleftrightarrow> err = TypeError \<and> \<not> same_kind a b"
  by (auto simp add: datetime_lt_def utc_key_def same_kind_def split: option.splits)

lemma earliest_trigger_some_pinned:
  "\<exists>e. earliest_trigger prs (Some a) = Some e \<and> same_kind e a
     \<and> ((e = a \<and> (\<forall>d \<in> set (filter (same_kind a) (parseable_triggers prs)). utc_key a \<le> utc_key d))
        \<or> (first_min (filter (same_kind a) (parseable_triggers prs)) e \<and> utc_key e < utc_key a))"
proof (induction prs arbitrary: a)
  case Nil
  show ?case by (simp add: same_kind_def)
next
  case (Cons pr prs)
  show ?case
  proof (cases "triggerAt pr")
    case None
    with Cons.IH [of a] show ?thesis by simp
  next
    case (Some t)
    show ?thesis
    proof (cases "fromisoformat_Z t")
      case (Inl err)
      then have "earliest_trigger (pr # prs) (Some a) = earliest_trigger prs (Some a)"
        using Some by simp
      with Cons.IH [of a] Some Inl show ?thesis by simp
    next
      case (Inr dt)
      then have ne: "t \<noteq> Empty" by (auto simp add: fromisoformat_Z_def)
      have ps: "parseable_triggers (pr # prs) = dt # parseable_triggers prs"
        using Some Inr by simp
      let ?cs = "filter (same_kind a) (parseable_triggers prs)"
      show ?thesis
      proof (cases "datetime_lt dt a")
        case (Inl err)
        then have step: "earliest_trigger (pr # prs) (Some a) = earliest_trigger prs (Some a)"
          using Some Inr ne by simp
        from Inl have "\<not> same_kind a dt" by (auto simp add: datetime_lt_kind same_kind_def)
        then have "filter (same_kind a) (parseable_triggers (pr # prs)) = ?cs"
          unfolding ps by simp
        with Cons.IH [of a] step show ?thesis by simp
      next
        case (Inr b)
        show ?thesis
        proof (cases b)
          case True
          with Inr have lt: "same_kind dt a" "utc_key dt < utc_key a"
            by (simp_all add: datetime_lt_kind)
          have step: "earliest_trigger (pr # prs) (Some a) = earliest_trigger prs (Some dt)"
            using Some \<open>fromisoformat_Z t = Inr dt\<close> ne Inr True by simp
          let ?ds = "filter (same_kind dt) (parseable_triggers prs)"
          have cs: "filter (same_kind a) (parseable_triggers (pr # prs)) = dt # ?ds"
            unfolding ps using lt(1) same_kind_filter [OF lt(1)] by (simp add: same_kind_def)
          from Cons.IH [of dt] obtain e where e: "earliest_trigger prs (Some dt) = Some e"
            "same_kind e dt"
            and alt: "(e = dt \<and> (\<forall>d \<in> set ?ds. utc_key dt \<le> utc_key d))
              \<or> (first_min ?ds e \<and> utc_key e < utc_key dt)" by auto
          from e(2) lt(1) have k: "same_kind e a" by (auto simp add: same_kind_def)
          from alt have "first_min (dt # ?ds) e \<and> utc_key e < utc_key a"
          proof
            assume "e = dt \<and> (\<forall>d \<in> set ?ds. utc_key dt \<le> utc_key d)"
            with lt(2) first_min_head [of ?ds dt] show ?thesis by simp
          next
            assume "first_min ?ds e \<and> utc_key e < utc_key dt"
            with lt(2) first_min_cons [of ?ds e dt] show ?thesis by simp
          qed
          with e(1) k step cs show ?thesis by simp
        next
          case False
          with Inr have ge: "same_kind dt a" "utc_key a \<le> utc_key dt"
            by (simp_all add: datetime_lt_kind)
          have step: "earliest_trigger (pr # prs) (Some a) = earliest_trigger prs (Some a)"
            using Some \<open>fromisoformat_Z t = Inr dt\<close> ne Inr False by simp
          have cs: "filter (same_kind a) (parseable_triggers (pr # prs)) = dt # ?cs"
            unfolding ps using ge(1) by (simp add: same_kind_def)
          from Cons.IH [of a] obtain e where e: "earliest_trigger prs (Some a) = Some e"
            "same_kind e a"
            and alt: "(e = a \<and> (\<forall>d \<in> set ?cs. utc_key a \<le> utc_key d))
              \<or> (first_min ?cs e \<and> utc_key e < utc_key a)" by auto
          from alt have "(e = a \<and> (\<forall>d \<in> set (dt # ?cs). utc_key a \<le> utc_key d))
              \<or> (first_min (dt # ?cs) e \<and> utc_key e < utc_key a)"
          proof
            assume "e = a \<and> (\<forall>d \<in> set ?cs. utc_key a \<le> utc_key d)"
            with ge(2) show ?thesis by simp
          next
            assume "first_min ?cs e \<and> utc_key e < utc_key a"
            with ge(2) first_min_cons [of ?cs e dt] show ?thesis by simp
          qed
          with e step cs show ?thesis by simp
        qed
      qed
    qed
  qed
qed

lemma earliest_trigger_none_pinned:
  "parseable_triggers prs \<noteq> [] \<Longrightarrow>
     \<exists>e. earliest_trigger prs None = Some e
       \<and> first_min (filter (same_kind (hd (parseable_triggers prs))) (parseable_triggers prs)) e"
proof (induction prs)
  case Nil
  then show ?case by simp
next
  case (Cons pr prs)
  show ?case
  proof (cases "triggerAt pr")
    case None
    with Cons show ?thesis by simp
  next
    case (Some t)
    show ?thesis
    proof (cases "fromisoformat_Z t")
      case (Inl err)
      then have "earliest_trigger (pr # prs) None = earliest_trigger prs None"
        using Some by simp
      with Cons Some Inl show ?thesis by simp
    next
      case (Inr dt)
      then have ne: "t \<noteq> Empty" by (auto simp add: fromisoformat_Z_def)
      have ps: "parseable_triggers (pr # prs) = dt # parseable_triggers prs"
        using Some Inr by simp
      have step: "earliest_trigger (pr # prs) None = earliest_trigger prs (Some dt)"
        using Some Inr ne by simp
      let ?cs = "filter (same_kind dt) (parseable_triggers prs)"
      have cs: "filter (same_kind (hd (parseable_triggers (pr # prs)))) (parseable_triggers (pr # prs))
                  = dt # ?cs"
        unfolding ps by (simp add: same_kind_def)
      from earliest_trigger_some_pinned [of prs dt] obtain e where
        e: "earliest_trigger prs (Some dt) = Some e"
        and alt: "(e = dt \<and> (\<forall>d \<in> set ?cs. utc_key dt \<le> utc_key d))
              \<or> (first_min ?cs e \<and> utc_key e < utc_key dt)" by auto
      from alt have "first_min (dt # ?cs) e"
      proof
        assume "e = dt \<and> (\<forall>d \<in> set ?cs. utc_key dt \<le> utc_key d)"
        with first_min_head [of ?cs dt] show ?thesis by simp
      next
        assume "first_min ?cs e \<and> utc_key e < utc_key dt"
        with first_min_cons [of ?cs e dt] show ?thesis by simp
      qed
      with e step show ?thesis unfolding cs by simp
    qed
  qed
qed

lemma migrate_twice:
  "migrate_user_reminders (fst (migrate_user_reminders u)) = (fst (migrate_user_reminders u), False)"
proof -
  have "pendingReminders (fst (migrate_user_reminders u)) = None" by (rule migrate_fields)
  then show ?thesis by (simp add: migrate_user_reminders_def [of "fst (migrate_user_reminders u)"])
qed

lemma migrate_keeps_set_timer:
  "truthy_ts (nextReminderTimestamp u) \<Longrightarrow>
     nextReminderTimestamp (fst (migrate_user_reminders u)) = nextReminderTimestamp u"
  by (simp add: migrate_user_reminders_def)

lemma migrate_legacy:
  assumes "\<not> truthy_ts (nextReminderTimestamp u)" and "pendingReminders u = Some pending"
    and "pending \<noteq> []"
  shows "migrate_user_reminders u =
     ((case earliest_trigger pending None of
         None \<Rightarrow> u
       | Some e \<Rightarrow> u\<lparr>nextReminderTimestamp := Some (isoformat_replace e)\<rparr>)
        \<lparr>postponedReminderTimestamp := None, pendingReminders := None\<rparr>, True)"
  using assms by (simp add: migrate_user_reminders_def Let_def dict_get_def)

lemma decimal_facts:
  assumes "unicode_decimal dec" and "dec c = Some v"
  shows "\<not> is_space c" "c \<noteq> 43" "c \<noteq> 45" "c \<noteq> 10" "c \<noteq> 58" "v \<le> 9"
    "to_ascii dec c = 48 + v"
proof -
  from assms(1) have d1: "\<And>k. k < 128 \<Longrightarrow> dec k = (if 48 \<le> k \<and> k \<le> 57 then Some (k - 48) else None)"
    and d2: "\<And>k. is_space k \<Longrightarrow> dec k = None" and d3: "\<And>k w. dec k = Some w \<Longrightarrow> w \<le> 9"
    unfolding unicode_decimal_def by blast+
  from d2 [of c] assms(2) show sp: "\<not> is_space c" by auto
  from d1 [of 43] assms(2) show "c \<noteq> 43" by auto
  from d1 [of 45] assms(2) show "c \<noteq> 45" by auto
  from d1 [of 10] assms(2) show "c \<noteq> 10" by auto
  from d1 [of 58] assms(2) show "c \<noteq> 58" by auto
  from d3 [OF assms(2)] show "v \<le> 9" .
  show "to_ascii dec c = 48 + v"
  proof (cases "c < 127")
    case True
    with d1 [of c] assms(2) have "48 \<le> c \<and> v = c - 48" by (auto split: if_splits)
    with True show ?thesis by (simp add: to_ascii_def)
  next
    case False
    with sp assms(2) show ?thesis by (simp add: to_ascii_def)
  qed
qed

lemma newline_is_space: "is_space 10"
  by (simp add: is_space_def)

lemma strip_last: "strip s \<noteq> [] \<Longrightarrow> \<not> is_space (last (strip s))"
proof -
  assume ne: "strip s \<noteq> []"
  let ?xs = "dropWhile is_space (rev (dropWhile is_space s))"
  from ne have "?xs \<noteq> []" by (simp add: strip_def)
  then have "\<not> is_space (hd ?xs)" by (rule hd_dropWhile)
  moreover have "last (strip s) = hd ?xs"
    using \<open>?xs \<noteq> []\<close> by (simp add: strip_def last_rev)
  ultimately show ?thesis by simp
qed

lemma tz_tail_no_newline:
  assumes "r = [] \<or> last r \<noteq> 10"
  shows "tz_tail dec r = (if r = [] then Some None
           else if length r = 3 \<and> hd r = 58 \<and> list_all (is_decimal dec) (tl r)
           then Some (Some (tl r))
           else None)"
  using assms by (auto simp add: tz_tail_def Let_def)

lemma py_int_one:
  assumes "unicode_decimal dec" and "dec a = Some va"
  shows "py_int dec [a] = Inr (int va)" "py_int dec [43, a] = Inr (int va)"
    "py_int dec [45, a] = Inr (- int va)"
  using decimal_facts(6,7) [OF assms]
  by (simp_all add: py_int_def Let_def to_ascii_def [of dec 43] to_ascii_def [of dec 45]
      is_c_space_def is_ascii_digit_def)

lemma py_int_two:
  assumes "unicode_decimal dec" and "dec a = Some va" and "dec b = Some vb"
  shows "py_int dec [a, b] = Inr (int va * 10 + int vb)"
    "py_int dec [43, a, b] = Inr (int va * 10 + int vb)"
    "py_int dec [45, a, b] = Inr (- (int va * 10 + int vb))"
  using decimal_facts(6,7) [OF assms(1,2)] decimal_facts(6,7) [OF assms(1,3)]
  by (simp_all add: py_int_def Let_def to_ascii_def [of dec 43] to_ascii_def [of dec 45]
      is_c_space_def is_ascii_digit_def)

lemma unsigned_split:
  "(take (length t - length (unsigned_part t)) t = []
      \<or> take (length t - length (unsigned_part t)) t = [43]
      \<or> take (length t - length (unsigned_part t)) t = [45])
   \<and> t = take (length t - length (unsigned_part t)) t @ unsigned_part t
   \<and> ((t \<noteq> [] \<and> hd t = 45) = (take (length t - length (unsigned_part t)) t = [45]))"
  by (cases t) (simp_all add: unsigned_part_def)

lemma re_match_tz_unsigned:
  "re_match_tz dec t =
     (case tz_hour dec 2 (unsigned_part t) of
        Some (ds, g2) \<Rightarrow> Some (take (length t - length (unsigned_part t)) t @ ds, g2)
      | None \<Rightarrow>
          (case tz_hour dec 1 (unsigned_part t) of
             Some (ds, g2) \<Rightarrow> Some (take (length t - length (unsigned_part t)) t @ ds, g2)
           | None \<Rightarrow> None))"
  by (cases t) (auto simp add: re_match_tz_def unsigned_part_def Let_def split: option.splits)

lemma tz_hour_exact:
  assumes "list_all (is_decimal dec) r" and "length r = n"
  shows "tz_hour dec n r = Some (r, None)"
  using assms by (simp add: tz_hour_def tz_tail_def)

lemma tz_hour_short: "length r < n \<Longrightarrow> tz_hour dec n r = None"
  by (simp add: tz_hour_def)

lemma tz_hour_Some:
  assumes "tz_hour dec n r = Some (ds, g2)" and "r = [] \<or> last r \<noteq> 10"
  shows "ds = take n r \<and> length ds = n \<and> list_all (is_decimal dec) ds
       \<and> ((g2 = None \<and> length r = n) \<or> (\<exists>x. g2 = Some x \<and> x \<noteq> []))"
proof -
  from assms(1) have n: "n \<le> length r" "list_all (is_decimal dec) (take n r)"
    and tl: "tz_tail dec (drop n r) = Some g2" and ds: "ds = take n r"
    by (auto simp add: tz_hour_def split: if_splits option.splits)
  from assms(2) have "drop n r = [] \<or> last (drop n r) \<noteq> 10" by auto
  from tz_tail_no_newline [OF this, of dec] tl
  have "(g2 = None \<and> drop n r = []) \<or> (\<exists>x. g2 = Some x \<and> length x = 2)"
    by (cases "drop n r") (auto split: if_splits)
  then have g: "(g2 = None \<and> length r = n) \<or> (\<exists>x. g2 = Some x \<and> x \<noteq> [])"
  proof
    assume "g2 = None \<and> drop n r = []"
    with n(1) show ?thesis by simp
  next
    assume "\<exists>x. g2 = Some x \<and> length x = 2"
    then obtain x where "g2 = Some x" "length x = 2" by blast
    then have "g2 = Some x \<and> x \<noteq> []" by (cases x) simp_all
    then show ?thesis by blast
  qed
  have "length (take n r) = n" using n(1) by simp
  with n(2) g show ?thesis unfolding ds by blast
qed

lemma py_int_signed_digits:
  assumes ud: "unicode_decimal dec"
    and "pre = [] \<or> pre = [43] \<or> pre = [45]"
    and "length ds = 1 \<or> length ds = 2" and "list_all (is_decimal dec) ds"
  shows "py_int dec (pre @ ds) =
           Inr (if pre = [45] then - foldl (\<lambda>a c. a * 10 + digit_val dec c) 0 ds
                else foldl (\<lambda>a c. a * 10 + digit_val dec c) 0 ds)"
proof -
  from assms(3) have "(\<exists>a. ds = [a]) \<or> (\<exists>a b. ds = [a, b])"
    by (auto simp add: length_Suc_conv numeral_2_eq_2)
  then show ?thesis
  proof (elim disjE exE)
    fix a assume ds: "ds = [a]"
    with assms(4) obtain va where a: "dec a = Some va" by (auto simp add: is_decimal_def)
    then have "digit_val dec a = int va" by (simp add: digit_val_def)
    with assms(2) py_int_one [OF ud a] show ?thesis unfolding ds
      by (elim disjE) simp_all
  next
    fix a b assume ds: "ds = [a, b]"
    with assms(4) obtain va vb where a: "dec a = Some va" and b: "dec b = Some vb"
      by (auto simp add: is_decimal_def)
    then have "digit_val dec a = int va" "digit_val dec b = int vb"
      by (simp_all add: digit_val_def)
    with assms(2) py_int_two [OF ud a b] show ?thesis unfolding ds
      by (elim disjE) simp_all
  qed
qed

lemma sample_decimal_ok: "unicode_decimal sample_decimal"
  by (auto simp add: unicode_decimal_def sample_decimal_def is_space_def)

lemma py_int_py_str_5: "py_int sample_decimal (py_str 5) = Inr 5"
  by code_simp

lemma strip_examples:
  "strip (ascii '' +05 '') = ascii ''+05''" "strip (ascii ''+05:30'') = ascii ''+05:30''"
  "strip (ascii ''-13'') = ascii ''-13''" "strip [160, 55] = [55]" "strip [1637] = [1637]"
  "strip [65297, 65298] = [65297, 65298]"
  by (simp_all add: strip_def is_space_def ascii_def)

lemma whole_hour_examples:
  "whole_hour_text sample_decimal (ascii ''+05'')"
  "whole_hour_value sample_decimal (ascii ''+05'') = 5"
  "\<not> whole_hour_text sample_decimal (ascii ''+05:30'')"
  "whole_hour_text sample_decimal (ascii ''-13'')"
  "whole_hour_value sample_decimal (ascii ''-13'') = - 13"
  "whole_hour_text sample_decimal [55]" "whole_hour_value sample_decimal [55] = 7"
  "whole_hour_text sample_decimal [1637]" "whole_hour_value sample_decimal [1637] = 5"
  "whole_hour_text sample_decimal [65297, 65298]"
  "whole_hour_value sample_decimal [65297, 65298] = 12"
  by (simp_all add: whole_hour_text_def whole_hour_value_def unsigned_part_def is_decimal_def
      digit_val_def sample_decimal_def ascii_def)

section \<open>The dosing schedule\<close>

text \<open>
  Claim C2. For every integer day the pair (required doses, interval in hours) is the one
  of the table: (6, 2.0) on days 1 to 3, (5, 2.5) on days 4 to 12, (4, 3.0) on days 13 to 16,
  (3, 5.0) on days 17 to 20, (2, 12.0) on days 21 to 25, and the fallback (0, 2.0) outside
  1 to 25. Both are positive on every day from 1 to 25, and no dose is required outside.
\<close>

theorem schedule_table:
  "(get_required_doses day, get_interval_hours day) =
     (if 1 \<le> day \<and> day \<le> 3 then (6, 2)
      else if 4 \<le> day \<and> day \<le> 12 then (5, 5 / 2)
      else if 13 \<le> day \<and> day \<le> 16 then (4, 3)
      else if 17 \<le> day \<and> day \<le> 20 then (3, 5)
      else if 21 \<le> day \<and> day \<le> 25 then (2, 12)
      else (0, 2))
   \<and> (1 \<le> day \<and> day \<le> 25 \<longrightarrow> get_required_doses day > 0 \<and> get_interval_hours day > 0)
   \<and> (day < 1 \<or> day > 25 \<longrightarrow> get_required_doses day = 0 \<and> get_interval_hours day = 2)"
  by (simp add: get_required_doses_def get_interval_hours_def)

text \<open>Day 4 lies inside the course and day 26 outside.\<close>

theorem schedule_table_witness:
  "(1::int) \<le> 4 \<and> (4::int) \<le> 25 \<and> get_required_doses 4 > 0 \<and> get_interval_hours 4 > 0
   \<and> ((26::int) < 1 \<or> (26::int) > 25) \<and> get_required_doses 26 = 0 \<and> get_interval_hours 26 = 2"
proof -
  have a: "(1::int) \<le> 4 \<and> (4::int) \<le> 25" by simp
  have b: "(26::int) < 1 \<or> (26::int) > 25" by simp
  from a b schedule_table [of 4] schedule_table [of 26] show ?thesis by blast
qed

section \<open>Recording doses\<close>

text \<open>
  Claim C3, as amended. From a record on day 1 with no dose taken, six successive dose
  events lead to day 2 with no dose taken, and the next reminder is due 2 hours (the
  interval of day 2, 7200000000 microseconds) after the instant of the sixth event.
\<close>

theorem six_doses_finish_day_one:
  assumes day: "dict_get (currentDay u) 1 = 1" and taken: "dict_get (takenToday u) 0 = 0"
  shows "currentDay (take_doses u [n1, n2, n3, n4, n5, n6]) = Some 2
       \<and> takenToday (take_doses u [n1, n2, n3, n4, n5, n6]) = Some 0
       \<and> nextReminderTimestamp (take_doses u [n1, n2, n3, n4, n5, n6])
           = Some (isoformat_Z (datetime_add n6 (timedelta_hours 2)))
       \<and> timedelta_hours 2 = 7200000000"
proof -
  define s1 where "s1 = fst (apply_taken u n1)"
  define s2 where "s2 = fst (apply_taken s1 n2)"
  define s3 where "s3 = fst (apply_taken s2 n3)"
  define s4 where "s4 = fst (apply_taken s3 n4)"
  define s5 where "s5 = fst (apply_taken s4 n5)"
  define s6 where "s6 = fst (apply_taken s5 n6)"
  have 1: "dict_get (currentDay s1) 1 = 1 \<and> dict_get (takenToday s1) 0 = 1"
    unfolding s1_def using apply_taken_below [of u n1] day taken
    by (simp add: schedule_day_one_two)
  have 2: "dict_get (currentDay s2) 1 = 1 \<and> dict_get (takenToday s2) 0 = 2"
    unfolding s2_def using apply_taken_below [of s1 n2] 1 by (simp add: schedule_day_one_two)
  have 3: "dict_get (currentDay s3) 1 = 1 \<and> dict_get (takenToday s3) 0 = 3"
    unfolding s3_def using apply_taken_below [of s2 n3] 2 by (simp add: schedule_day_one_two)
  have 4: "dict_get (currentDay s4) 1 = 1 \<and> dict_get (takenToday s4) 0 = 4"
    unfolding s4_def using apply_taken_below [of s3 n4] 3 by (simp add: schedule_day_one_two)
  have 5: "dict_get (currentDay s5) 1 = 1 \<and> dict_get (takenToday s5) 0 = 5"
    unfolding s5_def using apply_taken_below [of s4 n5] 4 by (simp add: schedule_day_one_two)
  have 6: "currentDay s6 = Some 2 \<and> takenToday s6 = Some 0
     \<and> nextReminderTimestamp s6 = Some (isoformat_Z (datetime_add n6 (timedelta_hours 2)))"
    unfolding s6_def using apply_taken_last [of s5 n6] 5 by (simp add: schedule_day_one_two)
  have "take_doses u [n1, n2, n3, n4, n5, n6] = s6"
    by (simp add: s1_def s2_def s3_def s4_def s5_def s6_def)
  with 6 show ?thesis by (simp add: timedelta_hours_values)
qed

text \<open>A newly stored user takes six doses, the sixth at clock reading 60.\<close>

theorem six_doses_witness:
  "dict_get (currentDay (save_new_user ''2025-03-01'' 5)) 1 = 1
   \<and> dict_get (takenToday (save_new_user ''2025-03-01'' 5)) 0 = 0
   \<and> nextReminderTimestamp (take_doses (save_new_user ''2025-03-01'' 5)
        [utcnow 10, utcnow 20, utcnow 30, utcnow 40, utcnow 50, utcnow 60])
      = Some (Iso (Datetime 7200000060 (Some 0)))"
proof -
  have a: "dict_get (currentDay (save_new_user ''2025-03-01'' 5)) 1 = 1"
    by (simp add: save_new_user_def dict_get_def)
  have b: "dict_get (takenToday (save_new_user ''2025-03-01'' 5)) 0 = 0"
    by (simp add: save_new_user_def dict_get_def)
  have c: "isoformat_Z (datetime_add (utcnow 60) 7200000000) = Iso (Datetime 7200000060 (Some 0))"
    by (simp add: isoformat_Z_def datetime_add_def utcnow_def)
  from six_doses_finish_day_one [OF a b, of "utcnow 10" "utcnow 20" "utcnow 30" "utcnow 40"
      "utcnow 50" "utcnow 60"] a b c
  show ?thesis by simp
qed

text \<open>
  The claim as first stated, with the reminder due 2.5 hours after the sixth event, fails
  for that user: 2.5 hours is the interval of days 4 to 12, and day 2 has the interval 2.
\<close>

theorem six_doses_counterexample:
  "nextReminderTimestamp (take_doses (save_new_user ''2025-03-01'' 5)
        [utcnow 10, utcnow 20, utcnow 30, utcnow 40, utcnow 50, utcnow 60])
      \<noteq> Some (isoformat_Z (datetime_add (utcnow 60) (timedelta_hours (5 / 2))))"
  by (simp add: save_new_user_def apply_taken_def Let_def dict_get_def get_required_doses_def
      get_interval_hours_def isoformat_Z_def datetime_add_def utcnow_def timedelta_hours_def)

text \<open>
  Claim C5. On day 25 with one dose taken (two are required), one more dose event moves
  the record to day 26, marks the course completed, leaves no next reminder and returns
  the completion notice.
\<close>

theorem last_dose_completes_course:
  assumes "dict_get (currentDay u) 1 = 25" and "dict_get (takenToday u) 0 = 1"
  shows "currentDay (fst (apply_taken u now)) = Some 26
       \<and> courseCompleted (fst (apply_taken u now)) = Some True
       \<and> nextReminderTimestamp (fst (apply_taken u now)) = None
       \<and> snd (apply_taken u now) = Some CompletionNotice"
  using assms
  by (simp add: apply_taken_def Let_def dict_get_def get_required_doses_def)

theorem last_dose_witness:
  "dict_get (currentDay (save_new_user ''2025-03-01'' 5\<lparr>currentDay := Some 25, takenToday := Some 1\<rparr>)) 1 = 25
   \<and> dict_get (takenToday (save_new_user ''2025-03-01'' 5\<lparr>currentDay := Some 25, takenToday := Some 1\<rparr>)) 0 = 1
   \<and> snd (apply_taken (save_new_user ''2025-03-01'' 5\<lparr>currentDay := Some 25, takenToday := Some 1\<rparr>)
        (utcnow 60)) = Some CompletionNotice"
proof -
  let ?u = "save_new_user ''2025-03-01'' 5\<lparr>currentDay := Some 25, takenToday := Some 1\<rparr>"
  have a: "dict_get (currentDay ?u) 1 = 25" by (simp add: dict_get_def)
  have b: "dict_get (takenToday ?u) 0 = 1" by (simp add: dict_get_def)
  from last_dose_completes_course [OF a b, of "utcnow 60"] a b show ?thesis by simp
qed

text \<open>
  Claim C6. On a record that is not completed, the postpone action stores a postponed
  reminder 15 minutes (900000000 microseconds) after the given instant and changes no other
  field; the next reminder is left as it was, so both timers can be pending together.
\<close>

theorem postpone_sets_only_postponed_timer:
  assumes "\<not> truthy_bool (courseCompleted u)"
  shows "cb_postpone u t =
           (u\<lparr>postponedReminderTimestamp :=
                 Some (isoformat_Z (datetime_add (utcnow t) (timedelta_minutes 15)))\<rparr>, [PostponeAck])
       \<and> isoformat_Z (datetime_add (utcnow t) (timedelta_minutes 15)) = Iso (Datetime (t + 900000000) (Some 0))
       \<and> nextReminderTimestamp (fst (cb_postpone u t)) = nextReminderTimestamp u
       \<and> (truthy_ts (nextReminderTimestamp u) \<longrightarrow>
            truthy_ts (nextReminderTimestamp (fst (cb_postpone u t)))
            \<and> truthy_ts (postponedReminderTimestamp (fst (cb_postpone u t))))"
  using assms
  by (simp add: cb_postpone_def Let_def isoformat_Z_def datetime_add_def utcnow_def
      timedelta_minutes_def truthy_ts_def)

text \<open>A new user who has a next reminder pending postpones at clock reading 60.\<close>

theorem postpone_witness:
  "\<not> truthy_bool (courseCompleted (fst (cb_taken (save_new_user ''2025-03-01'' 5) 10)))
   \<and> truthy_ts (nextReminderTimestamp (fst (cb_taken (save_new_user ''2025-03-01'' 5) 10)))
   \<and> postponedReminderTimestamp
        (fst (cb_postpone (fst (cb_taken (save_new_user ''2025-03-01'' 5) 10)) 60))
       = Some (Iso (Datetime 900000060 (Some 0)))
   \<and> truthy_ts (nextReminderTimestamp
        (fst (cb_postpone (fst (cb_taken (save_new_user ''2025-03-01'' 5) 10)) 60)))"
proof -
  let ?u = "fst (cb_taken (save_new_user ''2025-03-01'' 5) 10)"
  have a: "\<not> truthy_bool (courseCompleted ?u)"
    by (simp add: cb_taken_def save_new_user_def apply_taken_def migrate_user_reminders_def
        Let_def dict_get_def get_required_doses_def truthy_bool_def)
  have b: "truthy_ts (nextReminderTimestamp ?u)"
    by (simp add: cb_taken_def save_new_user_def apply_taken_def migrate_user_reminders_def
        Let_def dict_get_def get_required_doses_def truthy_bool_def truthy_ts_def
        isoformat_Z_def datetime_add_def utcnow_def)
  from postpone_sets_only_postponed_timer [OF a, of 60] a b show ?thesis by simp
qed

section \<open>Missed-dose resolution\<close>

text \<open>
  Claim C4. On a record that is not completed and has fewer doses taken than the day
  requires, the missed-dose resolution first tops the count up to exactly the required
  number, on the unchanged day and with both timers cleared; it then advances the day by
  one, resets the count to 0, clears the morning-message date and sets no new reminder.
\<close>

theorem missed_resolution_tops_up_and_advances:
  assumes "\<not> truthy_bool (courseCompleted u)"
    and "dict_get (takenToday u) 0 < get_required_doses (dict_get (currentDay u) 1)"
  shows "takenToday (missed_top_up u) = Some (get_required_doses (dict_get (currentDay u) 1))
       \<and> currentDay (missed_top_up u) = currentDay u
       \<and> nextReminderTimestamp (missed_top_up u) = None
       \<and> postponedReminderTimestamp (missed_top_up u) = None
       \<and> cb_missed_yes u =
           (missed_top_up u\<lparr>currentDay := Some (dict_get (currentDay u) 1 + 1), takenToday := Some 0,
                            lastMorningMessageDate := None\<rparr>, [MissedAck])
       \<and> nextReminderTimestamp (fst (cb_missed_yes u)) = None
       \<and> postponedReminderTimestamp (fst (cb_missed_yes u)) = None"
proof -
  have top: "takenToday (missed_top_up u) = Some (get_required_doses (dict_get (currentDay u) 1))"
    by (simp add: missed_top_up_def Let_def migrate_fields)
  have day: "currentDay (missed_top_up u) = currentDay u"
    by (simp add: missed_top_up_def Let_def migrate_fields)
  have timers: "nextReminderTimestamp (missed_top_up u) = None"
    "postponedReminderTimestamp (missed_top_up u) = None"
    by (simp_all add: missed_top_up_def Let_def)
  have adv: "cb_missed_yes u =
           (missed_top_up u\<lparr>currentDay := Some (dict_get (currentDay u) 1 + 1), takenToday := Some 0,
                            lastMorningMessageDate := None\<rparr>, [MissedAck])"
    by (simp add: cb_missed_yes_def Let_def top day dict_get_def)
  from top day timers adv show ?thesis by (simp add: timers)
qed

text \<open>A new user on day 1 with no dose taken.\<close>

theorem missed_resolution_witness:
  "\<not> truthy_bool (courseCompleted (save_new_user ''2025-03-01'' 5))
   \<and> dict_get (takenToday (save_new_user ''2025-03-01'' 5)) 0
       < get_required_doses (dict_get (currentDay (save_new_user ''2025-03-01'' 5)) 1)
   \<and> takenToday (missed_top_up (save_new_user ''2025-03-01'' 5)) = Some 6
   \<and> currentDay (fst (cb_missed_yes (save_new_user ''2025-03-01'' 5))) = Some 2
   \<and> takenToday (fst (cb_missed_yes (save_new_user ''2025-03-01'' 5))) = Some 0"
proof -
  let ?u = "save_new_user ''2025-03-01'' 5"
  have d: "dict_get (currentDay ?u) 1 = 1" "dict_get (takenToday ?u) 0 = 0"
    by (simp_all add: save_new_user_def dict_get_def)
  have a: "\<not> truthy_bool (courseCompleted ?u)"
    by (simp add: save_new_user_def truthy_bool_def)
  have b: "dict_get (takenToday ?u) 0 < get_required_doses (dict_get (currentDay ?u) 1)"
    by (simp add: d schedule_day_one_two)
  from missed_resolution_tops_up_and_advances [OF a b] a b show ?thesis
    by (simp add: d schedule_day_one_two)
qed

section \<open>Completion\<close>

text \<open>
  Claim C1 says that no operation changes a completed record or sends anything. The
  missed-dose resolution has no test for completion: on a completed record on day 26 it
  moves the day to 27, saves the record and sends its acknowledgement. (The dose and
  postpone actions and the tick do leave a completed record alone, lemma
  \<open>completed_noop\<close>.)
\<close>

theorem missed_yes_ignores_completion:
  "truthy_bool (courseCompleted (save_new_user ''2025-03-01'' 5
      \<lparr>currentDay := Some 26, courseCompleted := Some True\<rparr>))
   \<and> cb_missed_yes (save_new_user ''2025-03-01'' 5
      \<lparr>currentDay := Some 26, courseCompleted := Some True\<rparr>)
     = (save_new_user ''2025-03-01'' 5
      \<lparr>currentDay := Some 27, courseCompleted := Some True\<rparr>, [MissedAck])
   \<and> cb_missed_yes (save_new_user ''2025-03-01'' 5
      \<lparr>currentDay := Some 26, courseCompleted := Some True\<rparr>)
     \<noteq> (save_new_user ''2025-03-01'' 5
      \<lparr>currentDay := Some 26, courseCompleted := Some True\<rparr>, [])"
  by (simp add: save_new_user_def cb_missed_yes_def missed_top_up_def migrate_user_reminders_def
      Let_def dict_get_def get_required_doses_def truthy_bool_def)

section \<open>Scheduler checks\<close>




text \<open>
  Claim C8 says that a timer fires once when its time has come and is left alone before.
  The timers the bot writes end in \<open>Z\<close> and read back as aware datetimes, while the tick
  compares them with the naive \<open>datetime.utcnow()\<close>; the comparison raises, and the
  \<open>except\<close> branch clears the timer without a send. A user takes a dose at
  2025-03-01 10:00:00 UTC (1740823200000000 microseconds after 1970-01-01), which sets the
  next reminder to 12:00:00. The tick one second before that time (16:59 local time) and the
  tick one second after it (17:00) both clear the timer and send nothing. (Lemmas
  \<open>check_timer_aware\<close> and \<open>check_timer_naive\<close> give the general picture.)
\<close>

theorem written_timer_cleared_unsent:
  "nextReminderTimestamp (fst (cb_taken (save_new_user ''2025-03-01'' 5) 1740823200000000))
     = Some (Iso (Datetime 1740830400000000 (Some 0)))
   \<and> tick_user \<lparr>now_utc = 1740830399000000, local_date = fixed_clock ''2025-03-01'',
                 local_time = fixed_clock ''16:59'', delivers = always_delivers,
                 decimal_table = sample_decimal\<rparr>
        (fst (cb_taken (save_new_user ''2025-03-01'' 5) 1740823200000000))
     = (fst (cb_taken (save_new_user ''2025-03-01'' 5) 1740823200000000)
          \<lparr>nextReminderTimestamp := None\<rparr>, [])
   \<and> tick_user \<lparr>now_utc = 1740830401000000, local_date = fixed_clock ''2025-03-01'',
                 local_time = fixed_clock ''17:00'', delivers = always_delivers,
                 decimal_table = sample_decimal\<rparr>
        (fst (cb_taken (save_new_user ''2025-03-01'' 5) 1740823200000000))
     = (fst (cb_taken (save_new_user ''2025-03-01'' 5) 1740823200000000)
          \<lparr>nextReminderTimestamp := None\<rparr>, [])"
proof -
  let ?u = "fst (cb_taken (save_new_user ''2025-03-01'' 5) 1740823200000000)"
  have u: "?u = save_new_user ''2025-03-01'' 5
      \<lparr>takenToday := Some 1,
        lastDoseTimestamp := Some (Iso (Datetime 1740823200000000 (Some 0))),
        nextReminderTimestamp := Some (Iso (Datetime 1740830400000000 (Some 0)))\<rparr>"
    by (simp add: save_new_user_def cb_taken_def apply_taken_def migrate_user_reminders_def
        isoformat_Z_def datetime_add_def utcnow_def timedelta_hours_def truthy_bool_def
        Let_def dict_get_def get_required_doses_def get_interval_hours_def)
  have r: "tick_reminders dlv (utcnow t) 1 ?u = (?u\<lparr>nextReminderTimestamp := None\<rparr>, [])" for dlv t
    unfolding u
    by (simp add: save_new_user_def tick_reminders_def migrate_user_reminders_def
        check_timer_aware truthy_ts_def Let_def dict_get_def)
  have tz: "timezone ?u = Some (py_str 5)" "courseCompleted ?u = Some False"
    "currentDay ?u = Some 1" "lastMorningMessageDate ?u = None" "takenToday ?u = Some 1"
    unfolding u by (simp_all add: save_new_user_def)
  have t: "tick_user \<lparr>now_utc = t, local_date = fixed_clock ''2025-03-01'',
                 local_time = fixed_clock hm, delivers = always_delivers,
                 decimal_table = sample_decimal\<rparr> ?u
        = (?u\<lparr>nextReminderTimestamp := None\<rparr>, [])"
    if "hm = ''16:59'' \<or> hm = ''17:00''" for t hm
    using that
    by (auto simp add: tick_user_def tz py_int_py_str_5 truthy_bool_def dict_get_def Let_def
        tick_morning_def tick_missed_def fixed_clock_def r)
  from u t [of "''16:59''"] t [of "''17:00''"] show ?thesis by simp
qed

section \<open>Upgrade of legacy records\<close>

text \<open>
  Claim C9, as amended. The upgrade always removes \<open>pendingReminders\<close>. On a record without
  a next reminder and with a non-empty legacy list it clears the postponed reminder and
  reports a change. Among the readable triggers it looks only at those of the kind (naive
  or aware) of the first readable one, and sets the next reminder to the earliest of them,
  the first such entry when several are equally early; no readable trigger compares
  earlier than it. With no readable trigger the next reminder stays as it was. A next
  reminder that is already set is kept. Applied a second time, the upgrade changes nothing
  and returns False.
\<close>

theorem migrate_user_reminders_upgrade:
  "pendingReminders (fst (migrate_user_reminders u)) = None
   \<and> (\<not> truthy_ts (nextReminderTimestamp u) \<and> pendingReminders u = Some pending \<and> pending \<noteq> [] \<longrightarrow>
        postponedReminderTimestamp (fst (migrate_user_reminders u)) = None
        \<and> snd (migrate_user_reminders u)
        \<and> (parseable_triggers pending = [] \<longrightarrow>
             nextReminderTimestamp (fst (migrate_user_reminders u)) = nextReminderTimestamp u)
        \<and> (parseable_triggers pending \<noteq> [] \<longrightarrow>
             (\<exists>e. find (is_earliest (first_kind_triggers pending)) (first_kind_triggers pending) = Some e
                \<and> nextReminderTimestamp (fst (migrate_user_reminders u)) = Some (isoformat_replace e)
                \<and> fromisoformat_Z (isoformat_replace e) = Inr e
                \<and> (\<forall>d \<in> set (parseable_triggers pending). datetime_lt d e \<noteq> Inr True))))
   \<and> (truthy_ts (nextReminderTimestamp u) \<longrightarrow>
        nextReminderTimestamp (fst (migrate_user_reminders u)) = nextReminderTimestamp u)
   \<and> migrate_user_reminders (fst (migrate_user_reminders u)) = (fst (migrate_user_reminders u), False)"
proof -
  have legacy: "postponedReminderTimestamp (fst (migrate_user_reminders u)) = None
        \<and> snd (migrate_user_reminders u)
        \<and> (parseable_triggers pending = [] \<longrightarrow>
             nextReminderTimestamp (fst (migrate_user_reminders u)) = nextReminderTimestamp u)
        \<and> (parseable_triggers pending \<noteq> [] \<longrightarrow>
             (\<exists>e. find (is_earliest (first_kind_triggers pending)) (first_kind_triggers pending) = Some e
                \<and> nextReminderTimestamp (fst (migrate_user_reminders u)) = Some (isoformat_replace e)
                \<and> fromisoformat_Z (isoformat_replace e) = Inr e
                \<and> (\<forall>d \<in> set (parseable_triggers pending). datetime_lt d e \<noteq> Inr True)))"
    if h: "\<not> truthy_ts (nextReminderTimestamp u)" "pendingReminders u = Some pending" "pending \<noteq> []"
  proof -
    note m = migrate_legacy [OF h]
    show ?thesis
    proof (cases "parseable_triggers pending = []")
      case True
      with earliest_trigger_from_none [of pending] have "earliest_trigger pending None = None"
        by simp
      with m True show ?thesis by simp
    next
      case False
      from earliest_trigger_none_pinned [OF False] obtain e where
        e: "earliest_trigger pending None = Some e"
        and fm: "first_min (filter (same_kind (hd (parseable_triggers pending)))
                   (parseable_triggers pending)) e" by blast
      have "first_kind_triggers pending
              = filter (same_kind (hd (parseable_triggers pending))) (parseable_triggers pending)"
        using False by (cases "parseable_triggers pending") (simp_all add: first_kind_triggers_def)
      with first_min_find [OF fm]
      have pin: "find (is_earliest (first_kind_triggers pending)) (first_kind_triggers pending) = Some e"
        by simp
      from earliest_trigger_from_none [of pending] False e
      have none_earlier: "\<forall>d \<in> set (parseable_triggers pending). datetime_lt d e \<noteq> Inr True"
        by auto
      have rt: "fromisoformat_Z (isoformat_replace e) = Inr e"
        by (simp add: fromisoformat_Z_def isoformat_replace_def)
      have "nextReminderTimestamp (fst (migrate_user_reminders u)) = Some (isoformat_replace e)"
        "postponedReminderTimestamp (fst (migrate_user_reminders u)) = None"
        "snd (migrate_user_reminders u)"
        using m e by simp_all
      with False pin none_earlier rt show ?thesis by blast
    qed
  qed
  from legacy migrate_fields(5) [of u] migrate_keeps_set_timer [of u] migrate_twice [of u]
  show ?thesis by blast
qed

text \<open>The aware trigger at 100 is chosen; the naive trigger at 50 is not looked at.\<close>

theorem migrate_user_reminders_witness:
  "\<not> truthy_ts (nextReminderTimestamp mixed_legacy_user)
   \<and> pendingReminders mixed_legacy_user \<noteq> Some []
   \<and> nextReminderTimestamp (fst (migrate_user_reminders mixed_legacy_user))
       = Some (Iso (Datetime 100 (Some 0)))
   \<and> pendingReminders (fst (migrate_user_reminders mixed_legacy_user)) = None"
proof -
  let ?pending = "[PendingReminder (Some (Iso (Datetime 300 (Some 0)))),
         PendingReminder (Some (Iso (Datetime 50 None))),
         PendingReminder None,
         PendingReminder (Some Garbled),
         PendingReminder (Some (Iso (Datetime 100 (Some 0))))]"
  have a: "\<not> truthy_ts (nextReminderTimestamp mixed_legacy_user)"
    by (simp add: mixed_legacy_user_def save_new_user_def truthy_ts_def)
  have b: "pendingReminders mixed_legacy_user = Some ?pending"
    by (simp add: mixed_legacy_user_def)
  have c: "?pending \<noteq> []" by simp
  have p: "parseable_triggers ?pending \<noteq> []" by (simp add: fromisoformat_Z_def)
  have f: "find (is_earliest (first_kind_triggers ?pending)) (first_kind_triggers ?pending)
             = Some (Datetime 100 (Some 0))"
    by (simp add: first_kind_triggers_def fromisoformat_Z_def same_kind_def is_earliest_def
        utc_key_def)
  from migrate_user_reminders_upgrade [of mixed_legacy_user ?pending] a b c p
  have "nextReminderTimestamp (fst (migrate_user_reminders mixed_legacy_user))
          = Some (isoformat_replace (Datetime 100 (Some 0)))
        \<and> pendingReminders (fst (migrate_user_reminders mixed_legacy_user)) = None"
    unfolding f by blast
  with a b show ?thesis by (simp add: isoformat_replace_def)
qed

text \<open>
  The claim as first stated names the earliest readable trigger of the list. A list with a
  naive trigger at 12:00:00 and an aware trigger at 11:00:00 UTC of 2025-03-01 is upgraded
  to the naive one when it comes first and to the aware one when that comes first: the
  same entries give two results, and the first result is not the earlier instant.
\<close>

theorem migrate_mixed_counterexample:
  "nextReminderTimestamp (fst (migrate_user_reminders (save_new_user ''2025-03-01'' 5
      \<lparr>pendingReminders := Some
         [PendingReminder (Some (Iso (Datetime 1740830400000000 None))),
          PendingReminder (Some (Iso (Datetime 1740826800000000 (Some 0))))]\<rparr>)))
     = Some (Iso (Datetime 1740830400000000 None))
   \<and> nextReminderTimestamp (fst (migrate_user_reminders (save_new_user ''2025-03-01'' 5
      \<lparr>pendingReminders := Some
         [PendingReminder (Some (Iso (Datetime 1740826800000000 (Some 0)))),
          PendingReminder (Some (Iso (Datetime 1740830400000000 None)))]\<rparr>)))
     = Some (Iso (Datetime 1740826800000000 (Some 0)))
   \<and> utc_key (Datetime 1740826800000000 (Some 0)) < utc_key (Datetime 1740830400000000 None)"
  by (simp add: utc_key_def save_new_user_def migrate_user_reminders_def truthy_ts_def dict_get_def Let_def
      fromisoformat_Z_def datetime_lt_def isoformat_replace_def)

section \<open>Time-zone input\<close>

text \<open>
  Claim C10. For every table of decimal digits as Unicode has it and every text,
  \<open>parse_timezone\<close> never raises. It returns the hour \<open>h\<close> exactly when the stripped text is
  an optional sign followed by one or two decimal digits that denote \<open>h\<close> with
  \<open>-12 \<le> h \<le> 14\<close>; every other text, such as one with a minutes part or an hour out of
  range, gives \<open>None\<close>.
\<close>

theorem parse_timezone_whole_hours:
  assumes ud: "unicode_decimal dec"
  shows "parse_timezone dec s =
     Inr (if whole_hour_text dec (strip s)
             \<and> - 12 \<le> whole_hour_value dec (strip s) \<and> whole_hour_value dec (strip s) \<le> 14
          then Some (whole_hour_value dec (strip s)) else None)"
proof -
  define t where "t = strip s"
  define r where "r = unsigned_part t"
  define pre where "pre = take (length t - length r) t"
  have t_last: "t = [] \<or> \<not> is_space (last t)"
    unfolding t_def using strip_last [of s] by blast
  have pre: "pre = [] \<or> pre = [43] \<or> pre = [45]" and t_eq: "t = pre @ r"
    and neg: "(t \<noteq> [] \<and> hd t = 45) = (pre = [45])"
    unfolding pre_def r_def using unsigned_split [of t] by blast+
  have r_last: "r = [] \<or> last r \<noteq> 10"
    using t_last t_eq newline_is_space by (cases "r = []") auto
  have m: "re_match_tz dec t =
     (case tz_hour dec 2 r of
        Some (ds, g2) \<Rightarrow> Some (pre @ ds, g2)
      | None \<Rightarrow> (case tz_hour dec 1 r of Some (ds, g2) \<Rightarrow> Some (pre @ ds, g2) | None \<Rightarrow> None))"
    unfolding r_def pre_def by (rule re_match_tz_unsigned)
  have v: "whole_hour_value dec t =
      (if pre = [45] then - foldl (\<lambda>a c. a * 10 + digit_val dec c) 0 r
       else foldl (\<lambda>a c. a * 10 + digit_val dec c) 0 r)"
    unfolding whole_hour_value_def Let_def neg r_def by simp
  have w: "whole_hour_text dec t = ((length r = 1 \<or> length r = 2) \<and> list_all (is_decimal dec) r)"
    unfolding whole_hour_text_def r_def by simp
  show ?thesis
  proof (cases "whole_hour_text dec t")
    case True
    with w have len: "length r = 1 \<or> length r = 2" and dig: "list_all (is_decimal dec) r"
      by simp_all
    have "re_match_tz dec t = Some (pre @ r, None)"
    proof -
      from len show ?thesis
      proof
        assume "length r = 1"
        then show ?thesis using dig by (simp add: m tz_hour_short tz_hour_exact)
      next
        assume "length r = 2"
        then show ?thesis using dig by (simp add: m tz_hour_exact)
      qed
    qed
    moreover have "py_int dec (pre @ r) = Inr (whole_hour_value dec t)"
      using py_int_signed_digits [OF ud pre len dig] v by simp
    ultimately show ?thesis
      using True by (auto simp add: parse_timezone_def t_def [symmetric])
  next
    case False
    have "parse_timezone dec s = Inr None"
    proof (cases "re_match_tz dec t")
      case None
      then show ?thesis by (simp add: parse_timezone_def t_def [symmetric])
    next
      case (Some g)
      obtain g1 g2 where g: "g = (g1, g2)" by (cases g)
      from Some g m obtain n ds where n: "n = 1 \<or> n = 2" and h: "tz_hour dec n r = Some (ds, g2)"
        and g1: "g1 = pre @ ds"
        by (auto split: option.splits)
      note hs = tz_hour_Some [OF h r_last]
      from hs have ds: "length ds = n" "list_all (is_decimal dec) ds" by blast+
      from hs have g2: "(g2 = None \<and> length r = n) \<or> (\<exists>x. g2 = Some x \<and> x \<noteq> [])" by blast
      from hs have dsr: "ds = take n r" by blast
      from g2 have "\<exists>x. g2 = Some x \<and> x \<noteq> []"
      proof
        assume a: "g2 = None \<and> length r = n"
        with dsr ds n w False show ?thesis by auto
      qed simp
      moreover from py_int_signed_digits [OF ud pre _ ds(2)] ds(1) n
      obtain hh where "py_int dec (pre @ ds) = Inr hh" by auto
      ultimately show ?thesis
        using Some g g1 by (auto simp add: parse_timezone_def t_def [symmetric])
    qed
    with False show ?thesis by (simp add: t_def)
  qed
qed

text \<open>
  With a table that holds the ASCII, Arabic-Indic and fullwidth digits: \<open>+05\<close> between
  spaces is 5, \<open>+05:30\<close> and \<open>-13\<close> are refused, a no-break space before \<open>7\<close> is trimmed, and
  the Arabic-Indic digit five and the fullwidth \<open>12\<close> are read as 5 and 12.
\<close>

theorem parse_timezone_witness:
  "unicode_decimal sample_decimal
   \<and> parse_timezone sample_decimal (ascii '' +05 '') = Inr (Some 5)
   \<and> parse_timezone sample_decimal (ascii ''+05:30'') = Inr None
   \<and> parse_timezone sample_decimal (ascii ''-13'') = Inr None
   \<and> parse_timezone sample_decimal [160, 55] = Inr (Some 7)
   \<and> parse_timezone sample_decimal [1637] = Inr (Some 5)
   \<and> parse_timezone sample_decimal [65297, 65298] = Inr (Some 12)"
proof -
  note p = parse_timezone_whole_hours [OF sample_decimal_ok]
  from p [of "ascii '' +05 ''"] p [of "ascii ''+05:30''"] p [of "ascii ''-13''"]
    p [of "[160, 55]"] p [of "[1637]"] p [of "[65297, 65298]"] sample_decimal_ok
  show ?thesis by (simp add: strip_examples whole_hour_examples)
qed

end
